theory Spec2Isabelle
  imports Main "HOL-Library.AList"
begin

section \<open>JavaScript strings and the path helpers of util.ts\<close>

text \<open>
  Strings are \<open>char list\<close>. A JavaScript \<open>Map\<close> is an association list: \<open>map_of\<close> is
  \<open>get\<close>, \<open>AList.update\<close> is \<open>set\<close> (an existing key keeps its place, a new key goes to
  the end, as in a \<open>Map\<close>) and \<open>AList.delete\<close> is \<open>delete\<close>.
  A thrown value is a \<open>js_error\<close>: the text of \<open>err.message + ''\<close>, \<open>err.code\<close> when it is a
  number, and the names of the other own fields of the value.
\<close>

datatype js_error = JsError (err_message: string) (err_code: "int option") (err_data: "string list")

definition Error :: "string \<Rightarrow> js_error" where
  "Error msg = JsError msg None []"

definition backslash :: char where
  "backslash = CHR 0x5C"

definition is_sep :: "char \<Rightarrow> bool" where
  \<comment> \<open>the character class \<open>[\/\\]\<close>\<close>
  "is_sep c = (c = CHR ''/'' \<or> c = backslash)"

definition is_ascii_letter :: "char \<Rightarrow> bool" where
  \<comment> \<open>the character class \<open>[a-z]\<close> under the flag \<open>i\<close>\<close>
  "is_ascii_letter c = (c \<in> set ''abcdefghijklmnopqrstuvwxyzABCDEFGHIJKLMNOPQRSTUVWXYZ'')"

fun startsWith :: "string \<Rightarrow> string \<Rightarrow> bool" where
  "startsWith s [] = True"
| "startsWith [] (c # t) = False"
| "startsWith (a # s) (c # t) = (a = c \<and> startsWith s t)"


fun str_includes :: "string \<Rightarrow> string \<Rightarrow> bool" where
  "str_includes [] t = (t = [])"
| "str_includes (c # s) t = (startsWith (c # s) t \<or> str_includes s t)"

fun split_path :: "string \<Rightarrow> string list" where
  \<comment> \<open>\<open>s.split(/[\/\\]/)\<close>: never empty, \<open>''.split(...)\<close> is \<open>['']\<close>\<close>
  "split_path [] = [[]]"
| "split_path (c # s) =
     (if is_sep c then [] # split_path s
      else (case split_path s of [] \<Rightarrow> [[c]] | seg # segs \<Rightarrow> (c # seg) # segs))"

fun join :: "string \<Rightarrow> string list \<Rightarrow> string" where
  "join sep [] = []"
| "join sep [x] = x"
| "join sep (x # y # ys) = x @ sep @ join sep (y # ys)"

fun mapM :: "('a \<Rightarrow> js_error + 'b) \<Rightarrow> 'a list \<Rightarrow> js_error + 'b list" where
  \<comment> \<open>\<open>xs.map(f)\<close> for an \<open>f\<close> that may throw: the first throw ends the map\<close>
  "mapM f [] = Inr []"
| "mapM f (x # xs) =
     (case f x of
        Inl e \<Rightarrow> Inl e
      | Inr y \<Rightarrow> (case mapM f xs of Inl e \<Rightarrow> Inl e | Inr ys \<Rightarrow> Inr (y # ys)))"

text \<open>
  \<open>url.parse\<close>, \<open>decodeURIComponent\<close>, \<open>encodeURIComponent\<close> and \<open>path.basename\<close> belong
  to the platform, not to the repository. The functions below take them as the parameter
  \<open>L\<close>; the first three may throw. Of the parsed URL only the two fields that \<open>uri2path\<close>
  reads are kept.
\<close>

record url_parts =
  protocol :: "string option"
  pathname :: "string option"

record js_lib =
  url_parse :: "string \<Rightarrow> js_error + url_parts"
  decodeURIComponent :: "string \<Rightarrow> js_error + string"
  encodeURIComponent :: "string \<Rightarrow> js_error + string"
  basename :: "string \<Rightarrow> string"

definition path_is_absolute :: "string \<Rightarrow> bool" where
  \<comment> \<open>\<open>/^(?:[a-z]:)?[\\\/]/i.test(path)\<close>\<close>
  "path_is_absolute p =
     (case p of
        [] \<Rightarrow> False
      | a # r \<Rightarrow>
          (if is_sep a then True
           else (case r of
                   b # c # _ \<Rightarrow> is_ascii_letter a \<and> b = CHR '':'' \<and> is_sep c
                 | _ \<Rightarrow> False)))"

definition path2uri :: "js_lib \<Rightarrow> string \<Rightarrow> js_error + string" where
  "path2uri L p =
     (if path_is_absolute p then
        (case split_path p of
           [] \<Rightarrow> Inr (''file:///undefined/'')
         | head # parts \<Rightarrow>
             (case (if head = [] then encodeURIComponent L head else Inr (''/'' @ head)) of
                Inl e \<Rightarrow> Inl e
              | Inr head' \<Rightarrow>
                  (case mapM (encodeURIComponent L) parts of
                     Inl e \<Rightarrow> Inl e
                   | Inr ps \<Rightarrow> Inr (''file://'' @ head' @ ''/'' @ join ''/'' ps))))
      else Inl (Error (p @ '' is not an absolute path'')))"

definition has_drive_letter :: "string \<Rightarrow> bool" where
  \<comment> \<open>\<open>/^\/[a-z]:\//i.test(filePath)\<close>\<close>
  "has_drive_letter fp =
     (case fp of
        s # l # c # t # _ \<Rightarrow> s = CHR ''/'' \<and> is_ascii_letter l \<and> c = CHR '':'' \<and> t = CHR ''/''
      | _ \<Rightarrow> False)"

definition uri2path :: "js_lib \<Rightarrow> string \<Rightarrow> js_error + string" where
  "uri2path L uri =
     (case url_parse L uri of
        Inl e \<Rightarrow> Inl e
      | Inr parts \<Rightarrow>
          (if protocol parts = Some ''file:'' then
             (let filePath = (case pathname parts of None \<Rightarrow> [] | Some pn \<Rightarrow> pn);
                  filePath' = (if has_drive_letter filePath
                               then map (\<lambda>c. if c = CHR ''/'' then backslash else c) (drop 1 filePath)
                               else filePath)
              in decodeURIComponent L filePath')
           else Inl (Error (''Cannot resolve non-file uri to path: '' @ uri))))"




definition isDependencyFile :: "string \<Rightarrow> bool" where
  "isDependencyFile filename =
     (startsWith filename ''node_modules/'' \<or> str_includes filename ''/node_modules/'')"


section \<open>The in-memory file system (memfs.ts)\<close>

datatype fs_node = FileSystemNode (is_file: bool) (children: "(string \<times> fs_node) list")

text \<open>
  The fields of \<open>InMemoryFileSystem\<close>. \<open>files\<close> maps a URI to its content or to \<open>None\<close>
  (\<open>undefined\<close>: the URI is known, its content is not loaded). The two collaborators that
  only receive calls are kept as the lists of those calls: \<open>emitted\<close> holds the
  \<open>'add'\<close> events and \<open>warned\<close> the messages given to \<open>logger.warn\<close>.
\<close>

record memfs =
  overlay :: "(string \<times> string) list"
  files :: "(string \<times> string option) list"
  rootNode :: fs_node
  fileFilter :: "string \<Rightarrow> bool"
  emitted :: "(string \<times> string option) list"
  warned :: "string list"

definition new_memfs :: "(string \<Rightarrow> bool) \<Rightarrow> memfs" where
  \<comment> \<open>the constructor; the default filter is \<open>\<lambda>_. True\<close>\<close>
  "new_memfs flt =
     \<lparr>overlay = [], files = [], rootNode = FileSystemNode False [], fileFilter = flt,
      emitted = [], warned = []\<rparr>"

definition map_has :: "('k \<times> 'v) list \<Rightarrow> 'k \<Rightarrow> bool" where
  \<comment> \<open>\<open>Map.has\<close>\<close>
  "map_has m k = (case map_of m k of None \<Rightarrow> False | Some _ \<Rightarrow> True)"

definition files_get :: "(string \<times> string option) list \<Rightarrow> string \<Rightarrow> string option" where
  \<comment> \<open>\<open>files.get(uri)\<close>: \<open>undefined\<close> for an unknown URI and for one without content\<close>
  "files_get m uri = (case map_of m uri of Some (Some c) \<Rightarrow> Some c | _ \<Rightarrow> None)"

definition uris :: "memfs \<Rightarrow> string list" where
  "uris fs = map fst (files fs)"

fun addToTree :: "string list \<Rightarrow> fs_node \<Rightarrow> fs_node" where
  \<comment> \<open>the loop of \<open>add\<close> over the path components, from the node it has reached\<close>
  "addToTree [] node = node"
| "addToTree (component # rest) (FileSystemNode f ch) =
     (case map_of ch component of
        None \<Rightarrow>
          (if rest = [] then FileSystemNode f (AList.update component (FileSystemNode True []) ch)
           else FileSystemNode f
                  (AList.update component (addToTree rest (FileSystemNode False [])) ch))
      | Some n \<Rightarrow> FileSystemNode f (AList.update component (addToTree rest n) ch))"

definition add :: "js_lib \<Rightarrow> memfs \<Rightarrow> string \<Rightarrow> string option \<Rightarrow> js_error option \<times> memfs" where
  \<comment> \<open>the result is what the call threw (\<open>None\<close>: it returned) and the state it left\<close>
  "add L fs uri content =
     (if fileFilter fs uri then
        (let fs1 = (if content \<noteq> None \<or> \<not> map_has (files fs) uri
                    then fs\<lparr>files := AList.update uri content (files fs)\<rparr>
                    else fs)
         in (case uri2path L uri of
               Inl e \<Rightarrow> (Some e, fs1)
             | Inr filePath \<Rightarrow>
                 (None,
                  fs1\<lparr>rootNode := addToTree (filter (\<lambda>c. c \<noteq> []) (split_path filePath)) (rootNode fs1),
                      emitted := emitted fs1 @ [(uri, content)]\<rparr>)))
      else (None, fs))"

definition fileExists :: "js_lib \<Rightarrow> memfs \<Rightarrow> string \<Rightarrow> js_error + bool" where
  "fileExists L fs path =
     (case path2uri L path of
        Inl e \<Rightarrow> Inl e
      | Inr uri \<Rightarrow> Inr (map_has (overlay fs) uri \<or> map_has (files fs) uri))"

definition has :: "js_lib \<Rightarrow> memfs \<Rightarrow> string \<Rightarrow> js_error + bool" where
  "has L fs uri =
     (if map_has (files fs) uri then Inr True
      else (case uri2path L uri of Inl e \<Rightarrow> Inl e | Inr p \<Rightarrow> fileExists L fs p))"

definition getContent :: "memfs \<Rightarrow> string \<Rightarrow> js_error + string" where
  "getContent fs uri =
     (case (case map_of (overlay fs) uri of Some c \<Rightarrow> Some c | None \<Rightarrow> files_get (files fs) uri) of
        None \<Rightarrow> Inl (Error (''Content of '' @ uri @ '' is not available in memory''))
      | Some c \<Rightarrow> Inr c)"

definition readFileIfExists :: "js_lib \<Rightarrow> memfs \<Rightarrow> string \<Rightarrow> js_error + string option" where
  "readFileIfExists L fs path =
     (case path2uri L path of
        Inl e \<Rightarrow> Inl e
      | Inr uri \<Rightarrow>
          (case map_of (overlay fs) uri of
             Some c \<Rightarrow> Inr (Some c)
           | None \<Rightarrow> Inr (files_get (files fs) uri)))"

definition readFile :: "js_lib \<Rightarrow> memfs \<Rightarrow> string \<Rightarrow> (js_error + string) \<times> memfs" where
  "readFile L fs path =
     (case readFileIfExists L fs path of
        Inl e \<Rightarrow> (Inl e, fs)
      | Inr None \<Rightarrow>
          (Inr [],
           fs\<lparr>warned := warned fs @ [''readFile '' @ path @ '' requested but content not available'']\<rparr>)
      | Inr (Some c) \<Rightarrow> (Inr c, fs))"

definition didClose :: "memfs \<Rightarrow> string \<Rightarrow> memfs" where
  "didClose fs uri = fs\<lparr>overlay := AList.delete uri (overlay fs)\<rparr>"

definition didSave :: "js_lib \<Rightarrow> memfs \<Rightarrow> string \<Rightarrow> js_error option \<times> memfs" where
  "didSave L fs uri =
     (case map_of (overlay fs) uri of
        None \<Rightarrow> (None, fs)
      | Some c \<Rightarrow> add L fs uri (Some c))"

definition didChange :: "memfs \<Rightarrow> string \<Rightarrow> string \<Rightarrow> memfs" where
  "didChange fs uri text = fs\<lparr>overlay := AList.update uri text (overlay fs)\<rparr>"


section \<open>The language service, as far as it reads files (metaschema-lang-service.ts)\<close>





section \<open>The platform functions on plain URIs\<close>

text \<open>
  The theorems below hold for every \<open>L\<close>. Their examples need one concrete \<open>L\<close>:
  \<open>node\<close> follows the platform on URIs and paths made of a scheme, an optional
  \<open>//authority\<close> and a path, with no white space, no \<open>?\<close>, \<open>#\<close> or \<open>@\<close>, no backslash
  and no character that \<open>url.parse\<close> escapes; escaped bytes above \<open>%7F\<close> are decoded
  byte by byte, without the check that they form UTF-8.
\<close>

definition uriUnreserved :: "char \<Rightarrow> bool" where
  "uriUnreserved c =
     (c \<in> set ''abcdefghijklmnopqrstuvwxyzABCDEFGHIJKLMNOPQRSTUVWXYZ0123456789-_.!~*()''
      \<or> c = CHR 0x27)"

definition hex_digit :: "nat \<Rightarrow> char" where
  "hex_digit n = ''0123456789ABCDEF'' ! (n mod 16)"

definition node_encodeURIComponent :: "string \<Rightarrow> js_error + string" where
  "node_encodeURIComponent s =
     Inr (concat (map (\<lambda>c. if uriUnreserved c then [c]
                            else [CHR ''%'', hex_digit (of_char c div 16), hex_digit (of_char c)]) s))"

definition hex_value :: "char \<Rightarrow> nat option" where
  "hex_value c =
     map_of (zip ''0123456789abcdefABCDEF''
               [0, 1, 2, 3, 4, 5, 6, 7, 8, 9, 10, 11, 12, 13, 14, 15, 10, 11, 12, 13, 14, 15]) c"

fun node_decodeURIComponent :: "string \<Rightarrow> js_error + string" where
  "node_decodeURIComponent [] = Inr []"
| "node_decodeURIComponent (c # s) =
     (if c = CHR ''%'' then
        (case s of
           h1 # h2 # rest \<Rightarrow>
             (case (hex_value h1, hex_value h2) of
                (Some a, Some b) \<Rightarrow>
                  (case node_decodeURIComponent rest of
                     Inl e \<Rightarrow> Inl e
                   | Inr r \<Rightarrow> Inr (char_of (16 * a + b) # r))
              | _ \<Rightarrow> Inl (JsError ''URI malformed'' None []))
         | _ \<Rightarrow> Inl (JsError ''URI malformed'' None []))
      else (case node_decodeURIComponent s of Inl e \<Rightarrow> Inl e | Inr r \<Rightarrow> Inr (c # r)))"

definition is_scheme_char :: "char \<Rightarrow> bool" where
  \<comment> \<open>the character class \<open>[a-z0-9.+-]\<close> under the flag \<open>i\<close>\<close>
  "is_scheme_char c =
     (c \<in> set ''abcdefghijklmnopqrstuvwxyzABCDEFGHIJKLMNOPQRSTUVWXYZ0123456789.+-'')"

definition to_lower :: "char \<Rightarrow> char" where
  "to_lower c =
     (case map_of (zip ''ABCDEFGHIJKLMNOPQRSTUVWXYZ'' ''abcdefghijklmnopqrstuvwxyz'') c of
        None \<Rightarrow> c
      | Some l \<Rightarrow> l)"

definition slashedProtocol :: "string \<Rightarrow> bool" where
  "slashedProtocol proto = (proto \<in> set [''http:'', ''https:'', ''ftp:'', ''gopher:'', ''file:''])"

definition node_url_parse :: "string \<Rightarrow> js_error + url_parts" where
  "node_url_parse url =
     (let scheme = takeWhile is_scheme_char url;
          after = dropWhile is_scheme_char url;
          proto = (if scheme \<noteq> [] \<and> startsWith after '':'' then Some (map to_lower scheme @ '':'') else None);
          rest = (if proto = None then url else drop 1 after);
          slashes = (proto \<noteq> None \<and> proto \<noteq> Some ''javascript:'' \<and> startsWith rest ''//'');
          rest1 = (if slashes then drop 2 rest else rest);
          withHost = (proto \<noteq> Some ''javascript:'' \<and>
                      (slashes \<or> (case proto of None \<Rightarrow> False | Some pr \<Rightarrow> \<not> slashedProtocol pr)));
          host = (if withHost then takeWhile (\<lambda>c. c \<notin> set ''/?#'') rest1 else []);
          rest2 = (if withHost then dropWhile (\<lambda>c. c \<notin> set ''/?#'') rest1 else rest1);
          path = takeWhile (\<lambda>c. c \<notin> set ''?#'') rest2
      in Inr \<lparr>protocol = proto,
               pathname = (if path \<noteq> [] then Some path
                           else if (case proto of None \<Rightarrow> False | Some pr \<Rightarrow> slashedProtocol pr) \<and> host \<noteq> []
                           then Some ''/'' else None)\<rparr>)"

definition node_basename :: "string \<Rightarrow> string" where
  \<comment> \<open>the last component of a path with forward slashes, slashes at its end left out\<close>
  "node_basename path =
     rev (takeWhile (\<lambda>c. c \<noteq> CHR ''/'') (dropWhile (\<lambda>c. c = CHR ''/'') (rev path)))"

definition node :: js_lib where
  "node = \<lparr>url_parse = node_url_parse, decodeURIComponent = node_decodeURIComponent,
           encodeURIComponent = node_encodeURIComponent, basename = node_basename\<rparr>"


section \<open>Properties of the in-memory file system\<close>

lemma map_of_update_same: "map_of (AList.update k v al) k = Some v"
  by (simp add: update_conv')

lemma map_of_delete_same: "map_of (AList.delete k al) k = None"
  by (simp add: delete_conv')

lemma files_get_update_Some: "files_get (AList.update k (Some c) al) k = Some c"
  by (simp add: files_get_def update_conv')

lemma files_get_update_None:
  "\<not> map_has al k \<Longrightarrow> files_get (AList.update k None al) u = files_get al u"
  by (auto simp: files_get_def map_has_def update_conv' split: option.splits)

lemma files_add_content:
  "fileFilter fs uri \<Longrightarrow>
   files (snd (add L fs uri (Some c))) = AList.update uri (Some c) (files fs)"
  by (simp add: add_def Let_def split: sum.splits)

lemma files_get_add_no_content:
  "files_get (files (snd (add L fs uri None))) u = files_get (files fs) u"
  by (simp add: add_def Let_def files_get_update_None split: sum.splits)

lemma fileFilter_add: "fileFilter (snd (add L fs uri c)) = fileFilter fs"
  by (simp add: add_def Let_def split: sum.splits)

lemma overlay_add: "overlay (snd (add L fs uri c)) = overlay fs"
  by (simp add: add_def Let_def split: sum.splits)

lemma add_vetoed: "\<not> fileFilter fs uri \<Longrightarrow> add L fs uri c = (None, fs)"
  by (simp add: add_def)

lemma getContent_overlay:
  "map_of (overlay fs) uri = Some c \<Longrightarrow> getContent fs uri = Inr c"
  by (simp add: getContent_def)

lemma getContent_cache:
  "map_of (overlay fs) uri = None \<Longrightarrow>
   getContent fs uri =
     (case files_get (files fs) uri of
        None \<Rightarrow> Inl (Error (''Content of '' @ uri @ '' is not available in memory''))
      | Some c \<Rightarrow> Inr c)"
  by (simp add: getContent_def)

lemma readFile_overlay:
  "path2uri L p = Inr uri \<Longrightarrow> map_of (overlay fs) uri = Some c \<Longrightarrow> readFile L fs p = (Inr c, fs)"
  by (simp add: readFile_def readFileIfExists_def)

lemma readFile_cache:
  "path2uri L p = Inr uri \<Longrightarrow> map_of (overlay fs) uri = None \<Longrightarrow>
   fst (readFile L fs p) = Inr (case files_get (files fs) uri of None \<Rightarrow> [] | Some c \<Rightarrow> c)"
  by (simp add: readFile_def readFileIfExists_def split: option.splits)

lemma uri2path_node_example: "uri2path node ''file:///proj/a.schema'' = Inr ''/proj/a.schema''"
  by code_simp

lemma path2uri_node_example: "path2uri node ''/proj/a.schema'' = Inr ''file:///proj/a.schema''"
  by code_simp

lemma uri2path_node_untitled:
  "uri2path node ''untitled:Untitled-1'' =
     Inl (Error ''Cannot resolve non-file uri to path: untitled:Untitled-1'')"
  by code_simp


subsection \<open>C2: an add without content does not overwrite content\<close>

definition add_absent_present_absent :: "js_lib \<Rightarrow> memfs \<Rightarrow> string \<Rightarrow> string \<Rightarrow> memfs" where
  \<comment> \<open>\<open>add(uri); add(uri, x); add(uri)\<close>, each call on the state the call before it left\<close>
  "add_absent_present_absent L fs uri x =
     snd (add L (snd (add L (snd (add L fs uri None)) uri (Some x))) uri None)"

text \<open>
  C2, as stated, for every URI: \<open>add(uri)\<close>, \<open>add(uri, "X")\<close>, \<open>add(uri)\<close> leave the content
  cache holding \<open>"X"\<close> for \<open>uri\<close>. It fails on a file system whose file filter rejects the
  URI: \<open>add\<close> returns before it records anything.
\<close>

theorem add_sequence_filter_counterexample:
  "files_get
     (files (add_absent_present_absent node (new_memfs (\<lambda>uri. False)) ''file:///proj/a.schema'' ''X''))
     ''file:///proj/a.schema'' \<noteq> Some ''X''"
  by (simp add: add_absent_present_absent_def add_def new_memfs_def files_get_def)

text \<open>
  C2, amended: for every URI that the file filter accepts, the three calls leave the content
  cache holding the content of the second call. \<open>add\<close> records the content before it
  converts the URI to a path, so this holds as well when the calls throw on a URI that is
  not a file URI. And for every URI, accepted or not, an add without content leaves the
  content cached for every URI \<open>u\<close> as it was.
\<close>

theorem add_without_content_keeps_content:
  "(fileFilter fs uri \<longrightarrow>
      files_get (files (add_absent_present_absent L fs uri x)) uri = Some x)
   \<and> files_get (files (snd (add L fs uri None))) u = files_get (files fs) u"
  by (simp add: add_absent_present_absent_def files_get_add_no_content files_add_content
      fileFilter_add files_get_update_Some)

theorem add_without_content_keeps_content_witness:
  "fileFilter (new_memfs (\<lambda>uri. True)) ''file:///proj/a.schema'' \<and>
   files_get
     (files (add_absent_present_absent node (new_memfs (\<lambda>uri. True)) ''file:///proj/a.schema'' ''X''))
     ''file:///proj/a.schema'' = Some ''X''"
  using add_without_content_keeps_content
    [of "new_memfs (\<lambda>uri. True)" "''file:///proj/a.schema''" node "''X''"]
  by (simp add: new_memfs_def)


subsection \<open>C7: the overlay comes first, the cache comes back on close\<close>

text \<open>
  C7, as stated, for every URI: after \<open>didChange(uri, "A")\<close> both \<open>readFile\<close> and
  \<open>getContent\<close> return \<open>"A"\<close>. \<open>readFile\<close> takes a path and looks the overlay up under
  \<open>path2uri\<close> of it. For the URI \<open>file:///proj/a%2Eschema\<close> the path is \<open>/proj/a.schema\<close>,
  which \<open>path2uri\<close> turns into a URI with the dot: \<open>readFile\<close> misses the overlay entry and
  returns the empty string, while \<open>getContent\<close> returns \<open>"A"\<close>.
\<close>

theorem readFile_escaped_uri_counterexample:
  "uri2path node ''file:///proj/a%2Eschema'' = Inr ''/proj/a.schema''
   \<and> fst (readFile node (didChange (new_memfs (\<lambda>uri. True)) ''file:///proj/a%2Eschema'' ''A'')
          ''/proj/a.schema'') = Inr []
   \<and> getContent (didChange (new_memfs (\<lambda>uri. True)) ''file:///proj/a%2Eschema'' ''A'')
         ''file:///proj/a%2Eschema'' = Inr ''A''"
proof -
  have escaped: "uri2path node ''file:///proj/a%2Eschema'' = Inr ''/proj/a.schema''"
    by code_simp
  show ?thesis
    by (simp add: escaped readFile_def readFileIfExists_def path2uri_node_example getContent_def
        didChange_def new_memfs_def files_get_def)
qed

text \<open>
  C7, amended: for every URI, after \<open>didChange(uri, a)\<close> \<open>getContent(uri)\<close> returns \<open>a\<close>,
  whatever the content cache holds, and after \<open>didClose(uri)\<close> it returns the cached content
  again, or throws when there is none. For every URI that \<open>uri2path\<close> converts to a path
  \<open>p\<close> which \<open>path2uri\<close> converts back to the same URI, \<open>readFile(p)\<close> returns \<open>a\<close> after
  \<open>didChange(uri, a)\<close> too, and after \<open>didClose(uri)\<close> the cached content, or the empty
  string when there is none.
\<close>

theorem overlay_precedence:
  "getContent (didChange fs uri a) uri = Inr a
   \<and> getContent (didClose (didChange fs uri a) uri) uri =
       (case files_get (files fs) uri of
          None \<Rightarrow> Inl (Error (''Content of '' @ uri @ '' is not available in memory''))
        | Some c \<Rightarrow> Inr c)
   \<and> (uri2path L uri = Inr p \<and> path2uri L p = Inr uri \<longrightarrow>
         fst (readFile L (didChange fs uri a) p) = Inr a
       \<and> fst (readFile L (didClose (didChange fs uri a) uri) p) =
           Inr (case files_get (files fs) uri of None \<Rightarrow> [] | Some c \<Rightarrow> c))"
proof -
  have open_entry: "map_of (overlay (didChange fs uri a)) uri = Some a"
    by (simp add: didChange_def map_of_update_same)
  have closed_entry: "map_of (overlay (didClose (didChange fs uri a) uri)) uri = None"
    by (simp add: didClose_def map_of_delete_same)
  have cache: "files (didClose (didChange fs uri a) uri) = files fs"
    by (simp add: didClose_def didChange_def)
  have reads: "fst (readFile L (didChange fs uri a) p) = Inr a
       \<and> fst (readFile L (didClose (didChange fs uri a) uri) p) =
           Inr (case files_get (files fs) uri of None \<Rightarrow> [] | Some c \<Rightarrow> c)"
    if roundtrip: "path2uri L p = Inr uri"
    using readFile_overlay [OF roundtrip open_entry] readFile_cache [OF roundtrip closed_entry]
    by (simp add: cache)
  show ?thesis
    using getContent_overlay [OF open_entry] getContent_cache [OF closed_entry] reads
    by (simp add: cache)
qed

theorem overlay_precedence_witness:
  "uri2path node ''file:///proj/a.schema'' = Inr ''/proj/a.schema''
   \<and> path2uri node ''/proj/a.schema'' = Inr ''file:///proj/a.schema''
   \<and> fst (readFile node
        (didChange (snd (add node (new_memfs (\<lambda>uri. True)) ''file:///proj/a.schema'' (Some ''C'')))
           ''file:///proj/a.schema'' ''A'')
        ''/proj/a.schema'') = Inr ''A''
   \<and> fst (readFile node
        (didClose
           (didChange (snd (add node (new_memfs (\<lambda>uri. True)) ''file:///proj/a.schema'' (Some ''C'')))
              ''file:///proj/a.schema'' ''A'')
           ''file:///proj/a.schema'')
        ''/proj/a.schema'') = Inr ''C''
   \<and> getContent
        (didClose
           (didChange (snd (add node (new_memfs (\<lambda>uri. True)) ''file:///proj/a.schema'' (Some ''C'')))
              ''file:///proj/a.schema'' ''A'')
           ''file:///proj/a.schema'')
        ''file:///proj/a.schema'' = Inr ''C''"
  using overlay_precedence
    [of "snd (add node (new_memfs (\<lambda>uri. True)) ''file:///proj/a.schema'' (Some ''C''))"
        "''file:///proj/a.schema''" "''A''" node "''/proj/a.schema''"]
  by (simp add: uri2path_node_example path2uri_node_example files_add_content new_memfs_def files_get_def)


subsection \<open>C8: didSave writes the overlay content into the cache\<close>

definition fresh_view :: "memfs \<Rightarrow> memfs" where
  \<comment> \<open>a file system over the same content cache with no overlay of its own\<close>
  "fresh_view fs = fs\<lparr>overlay := []\<rparr>"

text \<open>
  C8, as stated, for every URI: \<open>didSave(uri)\<close> after \<open>didChange(uri, "B")\<close> puts \<open>"B"\<close> into
  the content cache. \<open>didSave\<close> stores through \<open>add\<close>, so on a file system whose file filter
  rejects the URI nothing is stored and a read that bypasses the overlay finds no content.
\<close>

theorem didSave_filter_counterexample:
  "getContent
     (fresh_view (snd (didSave node (didChange (new_memfs (\<lambda>uri. False)) ''file:///proj/a.schema'' ''B'')
        ''file:///proj/a.schema'')))
     ''file:///proj/a.schema''
   = Inl (Error ''Content of file:///proj/a.schema is not available in memory'')"
  by (simp add: fresh_view_def didSave_def didChange_def add_def new_memfs_def getContent_def
      files_get_def)

text \<open>
  C8, amended: for every URI that the file filter accepts, \<open>didSave(uri)\<close> after
  \<open>didChange(uri, b)\<close> leaves \<open>b\<close> in the content cache, and a read that bypasses the
  overlay returns \<open>b\<close>.
\<close>

theorem didSave_persists_overlay:
  assumes "fileFilter fs uri"
  shows "files_get (files (snd (didSave L (didChange fs uri b) uri))) uri = Some b
       \<and> getContent (fresh_view (snd (didSave L (didChange fs uri b) uri))) uri = Inr b"
proof -
  let ?fs1 = "didChange fs uri b"
  have entry: "map_of (overlay ?fs1) uri = Some b"
    by (simp add: didChange_def map_of_update_same)
  have accepted: "fileFilter ?fs1 uri"
    using assms by (simp add: didChange_def)
  have saved: "didSave L ?fs1 uri = add L ?fs1 uri (Some b)"
    by (simp add: didSave_def entry)
  have cache: "files_get (files (snd (didSave L ?fs1 uri))) uri = Some b"
    by (simp add: saved files_add_content [OF accepted] files_get_update_Some)
  then show ?thesis
    by (simp add: getContent_def fresh_view_def)
qed

theorem didSave_persists_overlay_witness:
  "fileFilter (new_memfs (\<lambda>uri. True)) ''file:///proj/a.schema''
   \<and> getContent
       (fresh_view (snd (didSave node (didChange (new_memfs (\<lambda>uri. True)) ''file:///proj/a.schema'' ''B'')
          ''file:///proj/a.schema'')))
       ''file:///proj/a.schema'' = Inr ''B''"
  using didSave_persists_overlay [of "new_memfs (\<lambda>uri. True)" "''file:///proj/a.schema''" node "''B''"]
  by (simp add: new_memfs_def)


subsection \<open>C9: readFile and paths that are not absolute\<close>

text \<open>
  C9 says that \<open>readFile\<close> never throws, and the comment on \<open>readFile\<close> says that absolute
  and relative paths are accepted. \<open>readFile\<close> converts the path with \<open>path2uri\<close> first,
  which throws on every path that is not absolute: on the relative path \<open>a.schema\<close>,
  in every state and whatever the platform functions do, \<open>readFile\<close> throws.
\<close>

theorem readFile_relative_path_throws:
  "readFile L fs ''a.schema'' = (Inl (Error ''a.schema is not an absolute path''), fs)"
  by (simp add: readFile_def readFileIfExists_def path2uri_def path_is_absolute_def is_sep_def
      backslash_def is_ascii_letter_def)

text \<open>
  On a path that \<open>path2uri\<close> converts, \<open>readFile\<close> returns: the content that \<open>getContent\<close>
  returns for the URI, or the empty string and one warning when \<open>getContent\<close> throws.
\<close>

lemma readFile_on_converted_path:
  assumes "path2uri L p = Inr uri"
  shows "readFile L fs p =
           (case getContent fs uri of
              Inr c \<Rightarrow> (Inr c, fs)
            | Inl e \<Rightarrow>
                (Inr [],
                 fs\<lparr>warned := warned fs @ [''readFile '' @ p @ '' requested but content not available'']\<rparr>))"
  using assms
  by (simp add: readFile_def readFileIfExists_def getContent_def split: option.splits)


subsection \<open>C10: overlay writes are not filtered\<close>

text \<open>
  C10, as stated, for every URI: after \<open>didChange(uri, text)\<close> on a file system whose filter
  rejects \<open>uri\<close>, \<open>has(uri)\<close> returns true. \<open>has\<close> goes through \<open>uri2path\<close> and \<open>path2uri\<close>;
  on the URI \<open>untitled:Untitled-1\<close> of an unsaved editor buffer \<open>uri2path\<close> throws, and so
  does \<open>has\<close>; on a file URI with an escaped dot, \<open>path2uri\<close> gives the URI with the dot
  back, which the overlay does not hold, and \<open>has\<close> returns false.
\<close>

theorem has_after_didChange_counterexample:
  "has node (didChange (new_memfs (\<lambda>uri. False)) ''untitled:Untitled-1'' ''text'') ''untitled:Untitled-1''
     = Inl (Error ''Cannot resolve non-file uri to path: untitled:Untitled-1'')
   \<and> has node (didChange (new_memfs (\<lambda>uri. False)) ''file:///proj/a%2Eschema'' ''text'')
       ''file:///proj/a%2Eschema''
     = Inr False"
proof -
  have escaped: "uri2path node ''file:///proj/a%2Eschema'' = Inr ''/proj/a.schema''"
    by code_simp
  show ?thesis
    by (simp add: has_def fileExists_def didChange_def new_memfs_def map_has_def
        uri2path_node_untitled escaped path2uri_node_example)
qed

text \<open>
  C10, amended: for every text and every URI that \<open>uri2path\<close> converts to a path \<open>p\<close> which
  \<open>path2uri\<close> converts back to the same URI: on a file system whose file filter rejects the
  URI, \<open>add(uri)\<close> records nothing, and after \<open>didChange(uri, text)\<close> both \<open>has(uri)\<close> and
  \<open>fileExists(p)\<close> return true and \<open>getContent(uri)\<close> returns \<open>text\<close>.
\<close>

theorem overlay_write_bypasses_filter:
  assumes "\<not> fileFilter fs uri" and "uri2path L uri = Inr p" and "path2uri L p = Inr uri"
  shows "add L fs uri c = (None, fs)
       \<and> has L (didChange fs uri text) uri = Inr True
       \<and> fileExists L (didChange fs uri text) p = Inr True
       \<and> getContent (didChange fs uri text) uri = Inr text"
proof -
  have entry: "map_of (overlay (didChange fs uri text)) uri = Some text"
    by (simp add: didChange_def map_of_update_same)
  have exists: "fileExists L (didChange fs uri text) p = Inr True"
    using assms(3) entry by (simp add: fileExists_def map_has_def)
  have known: "has L (didChange fs uri text) uri = Inr True"
    using assms(2) exists by (simp add: has_def)
  show ?thesis
    using add_vetoed [OF assms(1)] known exists getContent_overlay [OF entry] by simp
qed

theorem overlay_write_bypasses_filter_witness:
  "\<not> fileFilter (new_memfs (\<lambda>uri. False)) ''file:///proj/a.schema''
   \<and> uri2path node ''file:///proj/a.schema'' = Inr ''/proj/a.schema''
   \<and> path2uri node ''/proj/a.schema'' = Inr ''file:///proj/a.schema''
   \<and> add node (new_memfs (\<lambda>uri. False)) ''file:///proj/a.schema'' None
       = (None, new_memfs (\<lambda>uri. False))
   \<and> has node (didChange (new_memfs (\<lambda>uri. False)) ''file:///proj/a.schema'' ''text'')
       ''file:///proj/a.schema'' = Inr True
   \<and> fileExists node (didChange (new_memfs (\<lambda>uri. False)) ''file:///proj/a.schema'' ''text'')
       ''/proj/a.schema'' = Inr True
   \<and> getContent (didChange (new_memfs (\<lambda>uri. False)) ''file:///proj/a.schema'' ''text'')
       ''file:///proj/a.schema'' = Inr ''text''"
proof -
  have rejected: "\<not> fileFilter (new_memfs (\<lambda>uri. False)) ''file:///proj/a.schema''"
    by (simp add: new_memfs_def)
  show ?thesis
    using overlay_write_bypasses_filter [OF rejected uri2path_node_example path2uri_node_example]
      rejected uri2path_node_example path2uri_node_example
    by simp
qed


section \<open>The project manager (project-manager.ts)\<close>




text \<open>
  Each ensure method builds
  \<open>updater.ensureStructure().concat(defer(uris)).filter(f).mergeMap(ensure).do(updateFile, onError)
  .publishReplay().refCount()\<close> and keeps it in a slot of its own. The built observables are
  the list \<open>pipelines\<close>; a handle is an index into it. A pipeline is \<open>Cold\<close> until its first
  subscriber connects it, then waits for the directory structure, then for the fetches of
  the URIs that pass its filter, and ends \<open>Completed\<close> or \<open>Failed\<close>; it counts its
  subscribers, as \<open>refCount\<close> does. The file updater is a collaborator: the calls it
  receives are recorded in \<open>updater_calls\<close>, and what its observables send arrives as the
  steps \<open>structure_ready\<close>, \<open>ensure_next\<close>, \<open>ensure_completed\<close> and \<open>pipeline_error\<close>.
  \<open>indexed\<close> records the values given to \<open>service.updateFile\<close>. In a pipeline a throw of
  \<open>updateFile\<close> decides what becomes of the pipeline, and \<open>ensure_next\<close> runs \<open>updateFile\<close>;
  for the editor notifications the call is recorded and no more.
\<close>

datatype pipeline_kind = Basic | Own | All

datatype pipeline_phase = Cold | AwaitStructure | Fetching "string list" | Completed | Failed js_error

record pipeline =
  kind :: pipeline_kind
  phase :: pipeline_phase
  subscribers :: nat

datatype updater_call = EnsureStructure | Ensure string

datatype log_entry = Log string | Warn string | ErrorLog string

record project_manager =
  rootPath :: string
  inMemoryFs :: memfs
  versions :: "(string \<times> int) list"
  ensuredAllFiles :: "nat option"
  ensuredOwnFiles :: "nat option"
  ensuredBasicFiles :: "nat option"
  pipelines :: "pipeline list"
  updater_calls :: "updater_call list"
  indexed :: "string list"
  logged :: "log_entry list"



definition build_pipeline :: "pipeline_kind \<Rightarrow> project_manager \<Rightarrow> nat \<times> project_manager" where
  \<comment> \<open>the pipeline expression: it calls \<open>updater.ensureStructure()\<close> and subscribes to nothing\<close>
  "build_pipeline k pm =
     (length (pipelines pm),
      pm\<lparr>pipelines := pipelines pm @ [\<lparr>kind = k, phase = Cold, subscribers = 0\<rparr>],
         updater_calls := updater_calls pm @ [EnsureStructure]\<rparr>)"

definition ensureBasicFiles :: "project_manager \<Rightarrow> nat \<times> project_manager" where
  "ensureBasicFiles pm =
     (let pm1 = pm\<lparr>logged := logged pm @ [Log ''Ensure basic files'']\<rparr>
      in case ensuredBasicFiles pm1 of
           Some h \<Rightarrow> (h, pm1)
         | None \<Rightarrow>
             (case build_pipeline Basic pm1 of (h, pm2) \<Rightarrow> (h, pm2\<lparr>ensuredBasicFiles := Some h\<rparr>)))"

definition ensureOwnFiles :: "project_manager \<Rightarrow> nat \<times> project_manager" where
  "ensureOwnFiles pm =
     (let pm1 = pm\<lparr>logged := logged pm @ [Log ''Ensure own files'']\<rparr>
      in case ensuredOwnFiles pm1 of
           Some h \<Rightarrow> (h, pm1)
         | None \<Rightarrow>
             (case build_pipeline Own pm1 of (h, pm2) \<Rightarrow> (h, pm2\<lparr>ensuredOwnFiles := Some h\<rparr>)))"

definition ensureAllFiles :: "project_manager \<Rightarrow> nat \<times> project_manager" where
  "ensureAllFiles pm =
     (let pm1 = pm\<lparr>logged := logged pm @ [Log ''Ensure all files'']\<rparr>
      in case ensuredAllFiles pm1 of
           Some h \<Rightarrow> (h, pm1)
         | None \<Rightarrow>
             (case build_pipeline All pm1 of (h, pm2) \<Rightarrow> (h, pm2\<lparr>ensuredAllFiles := Some h\<rparr>)))"

definition invalidateModuleStructure :: "project_manager \<Rightarrow> project_manager" where
  "invalidateModuleStructure pm =
     pm\<lparr>ensuredAllFiles := None, ensuredBasicFiles := None, ensuredOwnFiles := None\<rparr>"

definition set_phase :: "project_manager \<Rightarrow> nat \<Rightarrow> pipeline_phase \<Rightarrow> project_manager" where
  "set_phase pm h ph = pm\<lparr>pipelines := (pipelines pm)[h := (pipelines pm ! h)\<lparr>phase := ph\<rparr>]\<rparr>"




definition ensure_completed :: "project_manager \<Rightarrow> nat \<Rightarrow> string \<Rightarrow> project_manager" where
  \<comment> \<open>the fetch of one URI completes; the pipeline completes with the last of them\<close>
  "ensure_completed pm h uri =
     (if h < length (pipelines pm) then
        (case phase (pipelines pm ! h) of
           Fetching pending \<Rightarrow>
             set_phase pm h (if remove1 uri pending = [] then Completed else Fetching (remove1 uri pending))
         | _ \<Rightarrow> pm)
      else pm)"




definition version_of :: "project_manager \<Rightarrow> string \<Rightarrow> int" where
  \<comment> \<open>\<open>versions.get(uri) || 0\<close>\<close>
  "version_of pm uri = (case map_of (versions pm) uri of None \<Rightarrow> 0 | Some v \<Rightarrow> v)"






section \<open>Properties of the project manager\<close>

subsection \<open>C3: the filters on a path under node_modules\<close>






subsection \<open>C5: one shared pipeline for the callers of ensureOwnFiles\<close>



lemma ensureOwnFiles_memo:
  "ensuredOwnFiles pm = Some h \<Longrightarrow>
   ensureOwnFiles pm = (h, pm\<lparr>logged := logged pm @ [Log ''Ensure own files'']\<rparr>)"
  by (simp add: ensureOwnFiles_def)




lemma distinct_uris_add: "distinct (uris fs) \<Longrightarrow> distinct (uris (snd (add L fs uri c)))"
  by (simp add: add_def uris_def Let_def distinct_update split: sum.splits)






subsection \<open>C6: what the editor notifications do to versions and to the index\<close>

lemma version_of_update:
  "version_of (pm\<lparr>versions := AList.update uri v (versions pm)\<rparr>) u = (if u = uri then v else version_of pm u)"
  by (simp add: version_of_def update_conv')





section \<open>The request dispatcher (registerLanguageHandler)\<close>

text \<open>
  JSON values; numbers are integers here, and an object is the list of its properties.
  A request id is a number or a string. A patch is an \<open>Operation\<close> of fast-json-patch.
\<close>

datatype json =
    JNull | JBool bool | JNumber int | JString string | JArray "json list"
  | JObject "(string \<times> json) list"

datatype jsonrpc_id = IdNumber int | IdString string

datatype operation =
  Operation (op_name: string) (op_path: string) (op_from: "string option") (op_value: "json option")

text \<open>
  An inbound message, as the tests of vscode-jsonrpc sort it: a response, a request (it has
  an id), a notification, or none of them. \<open>params\<close> is \<open>None\<close> when the message has none.
\<close>

datatype message =
    ResponseMessage
  | RequestMessage jsonrpc_id string "json option"
  | NotificationMessage string "json option"
  | InvalidMessage

datatype out_message =
    PartialResult jsonrpc_id operation
  | Result jsonrpc_id json
  | ErrorResponse jsonrpc_id string int "string list"

text \<open>
  What an observable sends to its subscriber, and what a handler method returns: an
  observable, given by what it sends at once when it is subscribed, a promise (which sends
  nothing at once) or a plain value. What an observable sends later arrives through
  \<open>deliver\<close>.
\<close>

datatype event = Next operation | Complete | Failure js_error

datatype returned = AnObservable "event list" | APromise | AValue operation

text \<open>
  What the dispatcher is given: \<open>camelCase\<close> of lodash, \<open>applyReducer\<close> of fast-json-patch
  (document, operation and index to the new document, or a throw), the handler object, as
  the method it holds under a name, if it holds one, and \<open>templateText\<close>, the text that a
  template literal of the language makes of a value (\<open>None\<close> is \<open>undefined\<close>).
  A \<open>log_entry\<close> holds the first argument of a call of the logger.
\<close>

record rpc_env =
  camelCase :: "string \<Rightarrow> string"
  applyReducer :: "json \<Rightarrow> operation \<Rightarrow> nat \<Rightarrow> js_error + json"
  handler :: "string \<Rightarrow> (json option \<Rightarrow> js_error + returned) option"
  templateText :: "json option \<Rightarrow> string"

text \<open>The error codes of vscode-jsonrpc.\<close>

definition RequestCancelled :: int where "RequestCancelled = - 32800"
definition MethodNotFound :: int where "MethodNotFound = - 32601"
definition UnknownErrorCode :: int where "UnknownErrorCode = - 32001"

text \<open>
  A subscription made by the dispatcher: for a request it carries the id, the document
  folded so far and the index of the next patch; \<open>closed\<close> is set when it has ended or was
  unsubscribed. The \<open>Subscription\<close> objects are the list \<open>subs\<close>, a handle is an index into
  it, and \<open>subscriptions\<close> is the map from request ids to handles. \<open>ticks\<close> holds the ids
  whose removal is queued with \<open>process.nextTick\<close>; \<open>written\<close> holds what was given to
  \<open>messageWriter.write\<close>, \<open>logger_calls\<close> what was given to the logger, and \<open>shutdowns\<close>
  counts the calls of \<open>handler.shutdown()\<close> made when the stream ends.
\<close>

record subscription =
  request_id :: "jsonrpc_id option"
  sub_method :: string
  acc :: json
  index :: nat
  closed :: bool

record dispatcher =
  initialized :: bool
  streaming :: bool
  subscriptions :: "(jsonrpc_id \<times> nat) list"
  subs :: "subscription list"
  ticks :: "jsonrpc_id list"
  written :: "out_message list"
  logger_calls :: "log_entry list"
  shutdowns :: nat

definition new_dispatcher :: dispatcher where
  "new_dispatcher =
     \<lparr>initialized = False, streaming = False, subscriptions = [], subs = [], ticks = [],
      written = [], logger_calls = [], shutdowns = 0\<rparr>"

definition TypeError :: js_error where
  "TypeError = JsError ''Cannot read property of undefined'' None []"

definition truthy :: "json \<Rightarrow> bool" where
  "truthy v = (case v of JNull \<Rightarrow> False | JBool b \<Rightarrow> b | JNumber n \<Rightarrow> n \<noteq> 0 | JString s \<Rightarrow> s \<noteq> [] | _ \<Rightarrow> True)"

definition property :: "json option \<Rightarrow> string \<Rightarrow> js_error + json option" where
  \<comment> \<open>\<open>v.name\<close>: a throw on \<open>undefined\<close> and \<open>null\<close>, \<open>undefined\<close> where there is no such property\<close>
  "property v name =
     (case v of
        None \<Rightarrow> Inl TypeError
      | Some JNull \<Rightarrow> Inl TypeError
      | Some (JObject props) \<Rightarrow> Inr (map_of props name)
      | Some _ \<Rightarrow> Inr None)"

definition close_sub :: "dispatcher \<Rightarrow> nat \<Rightarrow> dispatcher" where
  \<comment> \<open>the subscription ends; \<open>finally\<close> queues the removal of a request's id\<close>
  "close_sub st h =
     st\<lparr>subs := (subs st)[h := (subs st ! h)\<lparr>closed := True\<rparr>],
        ticks := ticks st @ (case request_id (subs st ! h) of None \<Rightarrow> [] | Some i \<Rightarrow> [i])\<rparr>"

definition fail :: "dispatcher \<Rightarrow> nat \<Rightarrow> js_error \<Rightarrow> dispatcher" where
  \<comment> \<open>the error callbacks of the two \<open>subscribe\<close> calls\<close>
  "fail st h e =
     (case request_id (subs st ! h) of
        Some i \<Rightarrow>
          close_sub
            (st\<lparr>logger_calls := logger_calls st @ [ErrorLog (''Handler for '' @ sub_method (subs st ! h) @ '' failed:'')],
                written := written st @
                  [ErrorResponse i (err_message e)
                     (case err_code e of Some c \<Rightarrow> c | None \<Rightarrow> UnknownErrorCode) (err_data e)]\<rparr>) h
      | None \<Rightarrow>
          close_sub
            (st\<lparr>logger_calls := logger_calls st @ [ErrorLog (''Handle '' @ sub_method (subs st ! h) @ '':'')]\<rparr>) h)"

definition deliver :: "rpc_env \<Rightarrow> dispatcher \<Rightarrow> nat \<Rightarrow> event \<Rightarrow> dispatcher" where
  \<comment> \<open>the observable behind subscription \<open>h\<close> sends \<open>ev\<close>; a closed subscription hears nothing\<close>
  "deliver E st h ev =
     (if h < length (subs st) \<and> \<not> closed (subs st ! h) then
        (case request_id (subs st ! h) of
           None \<Rightarrow>
             (case ev of
                Next patch \<Rightarrow> st
              | Complete \<Rightarrow> close_sub st h
              | Failure e \<Rightarrow> fail st h e)
         | Some i \<Rightarrow>
             (case ev of
                Next patch \<Rightarrow>
                  (let st1 = (if streaming st then st\<lparr>written := written st @ [PartialResult i patch]\<rparr> else st)
                   in case applyReducer E (acc (subs st ! h)) patch (index (subs st ! h)) of
                        Inl e \<Rightarrow> fail st1 h e
                      | Inr doc \<Rightarrow>
                          st1\<lparr>subs := (subs st1)[h := (subs st1 ! h)\<lparr>acc := doc, index := index (subs st1 ! h) + 1\<rparr>]\<rparr>)
              | Complete \<Rightarrow> close_sub (st\<lparr>written := written st @ [Result i (acc (subs st ! h))]\<rparr>) h
              | Failure e \<Rightarrow> fail st h e))
      else st)"

definition feed :: "rpc_env \<Rightarrow> dispatcher \<Rightarrow> nat \<Rightarrow> event list \<Rightarrow> dispatcher" where
  "feed E st h evs = foldl (\<lambda>s ev. deliver E s h ev) st evs"

definition unsubscribe :: "dispatcher \<Rightarrow> nat \<Rightarrow> dispatcher" where
  "unsubscribe st h = (if h < length (subs st) \<and> \<not> closed (subs st ! h) then close_sub st h else st)"

definition unsubscribe_all :: "dispatcher \<Rightarrow> dispatcher" where
  "unsubscribe_all st = foldl unsubscribe st (map snd (subscriptions st))"

definition run_ticks :: "dispatcher \<Rightarrow> dispatcher" where
  \<comment> \<open>the callbacks queued with \<open>process.nextTick\<close> run\<close>
  "run_ticks st =
     st\<lparr>subscriptions := foldl (\<lambda>m i. AList.delete i m) (subscriptions st) (ticks st), ticks := []\<rparr>"

definition to_events :: "js_error + returned \<Rightarrow> event list" where
  \<comment> \<open>what the observable made of the handler's return value sends when it is subscribed\<close>
  "to_events r =
     (case r of
        Inl e \<Rightarrow> [Failure e]
      | Inr (AnObservable evs) \<Rightarrow> evs
      | Inr APromise \<Rightarrow> []
      | Inr (AValue v) \<Rightarrow> [Next v, Complete])"

definition requested_id :: "json option \<Rightarrow> jsonrpc_id option" where
  \<comment> \<open>the key \<open>params.id\<close> as a request id; any other value is the key of no request\<close>
  "requested_id v =
     (case v of Some (JNumber n) \<Rightarrow> Some (IdNumber n) | Some (JString s) \<Rightarrow> Some (IdString s) | _ \<Rightarrow> None)"

definition pending_entry :: "dispatcher \<Rightarrow> json option \<Rightarrow> (jsonrpc_id \<times> nat) option" where
  \<comment> \<open>\<open>subscriptions.get(params.id)\<close>, with the id it was found under\<close>
  "pending_entry st v =
     (case requested_id v of
        None \<Rightarrow> None
      | Some i \<Rightarrow> (case map_of (subscriptions st) i of None \<Rightarrow> None | Some h \<Rightarrow> Some (i, h)))"

definition cancelRequest :: "rpc_env \<Rightarrow> dispatcher \<Rightarrow> json option \<Rightarrow> dispatcher" where
  "cancelRequest E st params =
     (case property params ''id'' of
        Inl e \<Rightarrow> st
      | Inr v \<Rightarrow>
          (case pending_entry st v of
             None \<Rightarrow>
               st\<lparr>logger_calls := logger_calls st @
                    [Warn (''$/cancelRequest for unknown request ID '' @ templateText E v)]\<rparr>
           | Some (i, h) \<Rightarrow>
               (let st1 = unsubscribe st h
                in st1\<lparr>subscriptions := AList.delete i (subscriptions st1),
                       written := written st1 @ [ErrorResponse i ''Request cancelled'' RequestCancelled []]\<rparr>)))"

definition invoke :: "rpc_env \<Rightarrow> dispatcher \<Rightarrow> jsonrpc_id option \<Rightarrow> string \<Rightarrow> json option \<Rightarrow> dispatcher" where
  "invoke E st ident m params =
     (let method = camelCase E m
      in case handler E method of
           None \<Rightarrow>
             (case ident of
                Some i \<Rightarrow>
                  st\<lparr>written := written st @
                       [ErrorResponse i (''Method '' @ method @ '' not implemented'') MethodNotFound []]\<rparr>
              | None \<Rightarrow>
                  st\<lparr>logger_calls := logger_calls st @ [Warn (''Method '' @ method @ '' not implemented'')]\<rparr>)
         | Some f \<Rightarrow>
             (let h = length (subs st);
                  st1 = st\<lparr>subs := subs st @
                           [\<lparr>request_id = ident, sub_method = (case ident of None \<Rightarrow> method | Some i \<Rightarrow> m),
                             acc = JNull, index = 0, closed = False\<rparr>]\<rparr>;
                  st2 = feed E st1 h (to_events (f params))
              in case ident of
                   Some i \<Rightarrow> st2\<lparr>subscriptions := AList.update i h (subscriptions st2)\<rparr>
                 | None \<Rightarrow> st2))"

definition handle_call :: "rpc_env \<Rightarrow> dispatcher \<Rightarrow> jsonrpc_id option \<Rightarrow> string \<Rightarrow> json option \<Rightarrow> dispatcher" where
  \<comment> \<open>the \<open>switch\<close> on the method and what follows it; a \<open>TypeError\<close> ends the listener\<close>
  "handle_call E st ident m params =
     (if m = ''initialize'' then
        (case property params ''capabilities'' of
           Inl e \<Rightarrow> st\<lparr>initialized := True\<rparr>
         | Inr caps \<Rightarrow>
             (case property caps ''streaming'' of
                Inl e \<Rightarrow> st\<lparr>initialized := True\<rparr>
              | Inr v \<Rightarrow>
                  invoke E (st\<lparr>initialized := True, streaming := (case v of None \<Rightarrow> False | Some b \<Rightarrow> truthy b)\<rparr>)
                    ident m params))
      else if m = ''shutdown'' then invoke E (st\<lparr>initialized := False\<rparr>) ident m params
      else if m = ''exit'' then unsubscribe_all st
      else if m = ''$/cancelRequest'' then cancelRequest E st params
      else invoke E st ident m params)"

definition dispatch :: "rpc_env \<Rightarrow> dispatcher \<Rightarrow> message \<Rightarrow> dispatcher" where
  "dispatch E st msg =
     (case msg of
        ResponseMessage \<Rightarrow> st
      | InvalidMessage \<Rightarrow> st\<lparr>logger_calls := logger_calls st @ [ErrorLog ''Received invalid message:'']\<rparr>
      | RequestMessage i m params \<Rightarrow> handle_call E st (Some i) m params
      | NotificationMessage m params \<Rightarrow> handle_call E st None m params)"

definition stream_ended :: "string \<Rightarrow> dispatcher \<Rightarrow> dispatcher" where
  \<comment> \<open>the listeners for \<open>close\<close> and for \<open>error\<close> of the stream, which differ in what they log\<close>
  "stream_ended what st =
     (let st1 = unsubscribe_all st
      in if initialized st1 then
           st1\<lparr>initialized := False,
               logger_calls := logger_calls st1 @ [ErrorLog what],
               shutdowns := shutdowns st1 + 1\<rparr>
         else st1)"

definition stream_close :: "dispatcher \<Rightarrow> dispatcher" where
  "stream_close st = stream_ended ''Stream was closed without shutdown notification'' st"

definition stream_error :: "dispatcher \<Rightarrow> dispatcher" where
  "stream_error st = stream_ended ''Stream:'' st"

fun fold_patches ::
  "(json \<Rightarrow> operation \<Rightarrow> nat \<Rightarrow> js_error + json) \<Rightarrow> json \<Rightarrow> nat \<Rightarrow> operation list \<Rightarrow> js_error + json" where
  \<comment> \<open>the left fold of a reducer over patches, from a document and an index; a throw ends it\<close>
  "fold_patches R doc n [] = Inr doc"
| "fold_patches R doc n (p # ps) =
     (case R doc p n of Inl e \<Rightarrow> Inl e | Inr doc' \<Rightarrow> fold_patches R doc' (Suc n) ps)"


definition streaming_declared :: "dispatcher \<Rightarrow> string \<Rightarrow> json option \<Rightarrow> bool" where
  \<comment> \<open>the peer has declared streaming support when a message with method \<open>m\<close> is handled:
     in this very message when it is \<open>initialize\<close>, in an earlier one otherwise\<close>
  "streaming_declared st m params =
     (if m = ''initialize'' then
        (case property params ''capabilities'' of
           Inl e \<Rightarrow> False
         | Inr caps \<Rightarrow>
             (case property caps ''streaming'' of
                Inl e \<Rightarrow> False
              | Inr None \<Rightarrow> False
              | Inr (Some v) \<Rightarrow> truthy v))
      else streaming st)"


text \<open>
  The examples use a handler object with four methods, \<open>camelCase\<close> on names that it leaves
  as they are, and \<open>root_reducer\<close>: what \<open>applyReducer\<close> does with \<open>add\<close>, \<open>replace\<close>,
  \<open>remove\<close> and \<open>test\<close> on the whole document (the path \<open>''\<close>). Operations on other
  paths do not occur in the examples; \<open>root_reducer\<close> answers them with a throw.
  \<open>example_text\<close> is the text of a value in a template literal, for numbers smaller than
  \<open>10^21\<close> in size.
\<close>

definition test_failed :: js_error where
  \<comment> \<open>the \<open>JsonPatchError\<close> of a \<open>test\<close> that the document does not pass; it has no \<open>code\<close>\<close>
  "test_failed = JsError ''Test operation failed'' None [''name'', ''index'', ''operation'', ''tree'']"

definition root_reducer :: "json \<Rightarrow> operation \<Rightarrow> nat \<Rightarrow> js_error + json" where
  "root_reducer doc p n =
     (if op_path p = [] \<and> (op_name p = ''add'' \<or> op_name p = ''replace'') then
        (case op_value p of None \<Rightarrow> Inl (JsError ''outside the example'' None []) | Some v \<Rightarrow> Inr v)
      else if op_path p = [] \<and> op_name p = ''remove'' then Inr JNull
      else if op_path p = [] \<and> op_name p = ''test'' then
        (if op_value p = Some doc then Inr doc else Inl test_failed)
      else Inl (JsError ''outside the example'' None []))"

definition add_root :: "json \<Rightarrow> operation" where
  "add_root v = Operation ''add'' [] None (Some v)"

definition test_root :: "json \<Rightarrow> operation" where
  "test_root v = Operation ''test'' [] None (Some v)"

fun decimal :: "nat \<Rightarrow> string" where
  "decimal n = (if n < 10 then [''0123456789'' ! n] else decimal (n div 10) @ [''0123456789'' ! (n mod 10)])"

fun json_text :: "json \<Rightarrow> string" and json_texts :: "json list \<Rightarrow> string" where
  "json_text JNull = ''null''"
| "json_text (JBool b) = (if b then ''true'' else ''false'')"
| "json_text (JNumber n) = (if n < 0 then ''-'' @ decimal (nat (- n)) else decimal (nat n))"
| "json_text (JString s) = s"
| "json_text (JArray xs) = json_texts xs"
| "json_text (JObject props) = ''[object Object]''"
| "json_texts [] = []"
| "json_texts [x] = (if x = JNull then [] else json_text x)"
| "json_texts (x # y # ys) = (if x = JNull then [] else json_text x) @ '','' @ json_texts (y # ys)"

definition example_text :: "json option \<Rightarrow> string" where
  "example_text v = (case v of None \<Rightarrow> ''undefined'' | Some j \<Rightarrow> json_text j)"

definition example_env :: rpc_env where
  "example_env =
     \<lparr>camelCase = (\<lambda>m. m),
      applyReducer = root_reducer,
      handler = (\<lambda>name.
        if name = ''initialize'' then Some (\<lambda>params. Inr (AnObservable [Next (add_root (JObject [])), Complete]))
        else if name = ''build'' then
          Some (\<lambda>params. Inr (AnObservable [Next (add_root (JNumber 1)), Next (add_root (JNumber 2))]))
        else if name = ''check'' then
          Some (\<lambda>params. Inr (AnObservable
            [Next (test_root (JNumber 1)), Next (add_root (JNumber 2)), Next (add_root (JNumber 3)), Complete]))
        else if name = ''hover'' then Some (\<lambda>params. Inr APromise)
        else None),
      templateText = example_text\<rparr>"

definition example_session :: dispatcher where
  "example_session =
     run_ticks (dispatch example_env new_dispatcher
       (RequestMessage (IdNumber 0) ''initialize''
          (Some (JObject [(''capabilities'', JObject [(''streaming'', JBool True)])]))))"


text \<open>
  What happens to a dispatcher in the course of a session: the observable behind a
  subscription sends an event, the callbacks queued with \<open>process.nextTick\<close> run, a message
  arrives, the stream closes, or the stream fails. \<open>new_request i\<close> holds of the arrival of
  a request with the id \<open>i\<close>. \<open>results_for i\<close> are the success responses for the id \<open>i\<close>
  among the messages written, \<open>all_closed i\<close> says that every subscription made for a request
  with the id \<open>i\<close> has ended, and \<open>others_closed i h\<close> says so of every such subscription
  other than the one with the handle \<open>h\<close>. \<open>quiet i st st'\<close> relates a state to a later
  one when no success response for \<open>i\<close> was written between them and no subscription for \<open>i\<close>
  is live in the later one.
\<close>

definition is_result_for :: "jsonrpc_id \<Rightarrow> out_message \<Rightarrow> bool" where
  "is_result_for i w = (case w of Result j r \<Rightarrow> j = i | _ \<Rightarrow> False)"

definition results_for :: "jsonrpc_id \<Rightarrow> out_message list \<Rightarrow> out_message list" where
  "results_for i ws = filter (is_result_for i) ws"

definition all_closed :: "jsonrpc_id \<Rightarrow> subscription list \<Rightarrow> bool" where
  "all_closed i ss = list_all (\<lambda>s. request_id s = Some i \<longrightarrow> closed s) ss"

definition others_closed :: "jsonrpc_id \<Rightarrow> nat \<Rightarrow> subscription list \<Rightarrow> bool" where
  "others_closed i h ss = all_closed i (ss[h := (ss ! h)\<lparr>closed := True\<rparr>])"

datatype step = Delivered nat event | Ticked | Received message | StreamClosed | StreamFailed

fun apply_step :: "rpc_env \<Rightarrow> dispatcher \<Rightarrow> step \<Rightarrow> dispatcher" where
  "apply_step E st (Delivered h ev) = deliver E st h ev"
| "apply_step E st Ticked = run_ticks st"
| "apply_step E st (Received msg) = dispatch E st msg"
| "apply_step E st StreamClosed = stream_close st"
| "apply_step E st StreamFailed = stream_error st"

definition run_steps :: "rpc_env \<Rightarrow> dispatcher \<Rightarrow> step list \<Rightarrow> dispatcher" where
  "run_steps E st steps = foldl (apply_step E) st steps"

definition new_request :: "jsonrpc_id \<Rightarrow> step \<Rightarrow> bool" where
  "new_request i s = (case s of Received (RequestMessage j m params) \<Rightarrow> j = i | _ \<Rightarrow> False)"

definition quiet :: "jsonrpc_id \<Rightarrow> dispatcher \<Rightarrow> dispatcher \<Rightarrow> bool" where
  "quiet i st st' = (all_closed i (subs st') \<and> results_for i (written st') = results_for i (written st))"


section \<open>Properties of the request dispatcher\<close>

lemma deliver_subscriptions:
  "deliver E (st\<lparr>subscriptions := m\<rparr>) h ev = (deliver E st h ev)\<lparr>subscriptions := m\<rparr>"
  by (simp add: deliver_def fail_def close_sub_def Let_def split: option.splits event.splits sum.splits)

lemma feed_subscriptions:
  "feed E (st\<lparr>subscriptions := m\<rparr>) h evs = (feed E st h evs)\<lparr>subscriptions := m\<rparr>"
  unfolding feed_def
  by (induction evs arbitrary: st) (simp_all add: deliver_subscriptions)

lemma feed_append: "feed E st h (evs @ evs') = feed E (feed E st h evs) h evs'"
  by (simp add: feed_def)

lemma feed_Cons: "feed E st h (ev # evs) = feed E (deliver E st h ev) h evs"
  by (simp add: feed_def)

lemma feed_Nil: "feed E st h [] = st"
  by (simp add: feed_def)

lemma deliver_closed:
  "h < length (subs st) \<Longrightarrow> closed (subs st ! h) \<Longrightarrow> deliver E st h ev = st"
  by (simp add: deliver_def)

lemma feed_closed:
  "h < length (subs st) \<Longrightarrow> closed (subs st ! h) \<Longrightarrow> feed E st h evs = st"
  by (induction evs) (simp_all add: feed_Nil feed_Cons deliver_closed)

lemma feed_patches:
  assumes "h < length (subs st)" and "\<not> closed (subs st ! h)"
    and "request_id (subs st ! h) = Some i" and "streaming st"
    and "fold_patches (applyReducer E) (acc (subs st ! h)) (index (subs st ! h)) ps = Inr r"
  shows "feed E st h (map Next ps) =
           st\<lparr>written := written st @ map (PartialResult i) ps,
              subs := (subs st)[h := (subs st ! h)\<lparr>acc := r, index := index (subs st ! h) + length ps\<rparr>]\<rparr>"
  using assms
proof (induction ps arbitrary: st)
  case Nil
  then have "r = acc (subs st ! h)" by simp
  then show ?case by (simp add: feed_Nil)
next
  case (Cons p ps)
  from Cons.prems(5) obtain doc where
    step: "applyReducer E (acc (subs st ! h)) p (index (subs st ! h)) = Inr doc"
    and rest: "fold_patches (applyReducer E) doc (Suc (index (subs st ! h))) ps = Inr r"
    by (auto split: sum.splits)
  let ?st1 = "st\<lparr>written := written st @ [PartialResult i p],
                 subs := (subs st)[h := (subs st ! h)\<lparr>acc := doc, index := index (subs st ! h) + 1\<rparr>]\<rparr>"
  have d: "deliver E st h (Next p) = ?st1"
    using Cons.prems(1-4) step by (simp add: deliver_def Let_def)
  have "feed E ?st1 h (map Next ps) =
      ?st1\<lparr>written := written ?st1 @ map (PartialResult i) ps,
           subs := (subs ?st1)[h := (subs ?st1 ! h)\<lparr>acc := r, index := index (subs ?st1 ! h) + length ps\<rparr>]\<rparr>"
    using Cons.prems(1-4) rest by (intro Cons.IH) simp_all
  then show ?case
    using Cons.prems(1) by (simp add: feed_Cons d)
qed


lemma request_run:
  assumes "streaming st"
    and "fold_patches (applyReducer E) JNull 0 ps = Inr r"
  shows "written (feed E (st\<lparr>subs := subs st @
            [\<lparr>request_id = Some i, sub_method = m, acc = JNull, index = 0, closed = False\<rparr>]\<rparr>)
          (length (subs st)) (map Next ps @ [Complete]))
         = written st @ map (PartialResult i) ps @ [Result i r]"
proof -
  let ?h = "length (subs st)"
  let ?st1 = "st\<lparr>subs := subs st @ [\<lparr>request_id = Some i, sub_method = m, acc = JNull, index = 0, closed = False\<rparr>]\<rparr>"
  have patches: "feed E ?st1 ?h (map Next ps) =
      ?st1\<lparr>written := written ?st1 @ map (PartialResult i) ps,
           subs := (subs ?st1)[?h := (subs ?st1 ! ?h)\<lparr>acc := r, index := index (subs ?st1 ! ?h) + length ps\<rparr>]\<rparr>"
    using assms by (intro feed_patches) simp_all
  show ?thesis
    by (simp add: feed_append patches feed_Cons feed_Nil deliver_def close_sub_def)
qed

lemma unsubscribe_closed:
  "h < length (subs st) \<Longrightarrow> closed (subs (unsubscribe st h) ! h)"
  by (simp add: unsubscribe_def close_sub_def)

lemma unsubscribe_frame:
  "written (unsubscribe st h) = written st \<and> subscriptions (unsubscribe st h) = subscriptions st
   \<and> length (subs (unsubscribe st h)) = length (subs st) \<and> logger_calls (unsubscribe st h) = logger_calls st"
  by (simp add: unsubscribe_def close_sub_def)

lemma example_session_eq:
  "example_session =
     \<lparr>initialized = True, streaming = True, subscriptions = [],
      subs = [\<lparr>request_id = Some (IdNumber 0), sub_method = ''initialize'', acc = JObject [], index = 1, closed = True\<rparr>],
      ticks = [],
      written = [PartialResult (IdNumber 0) (add_root (JObject [])), Result (IdNumber 0) (JObject [])],
      logger_calls = [], shutdowns = 0\<rparr>"
  by code_simp


definition example_pending :: dispatcher where
  \<comment> \<open>the session after a request for \<open>hover\<close>, whose handler has returned a promise\<close>
  "example_pending = dispatch example_env example_session (RequestMessage (IdNumber 1) ''hover'' None)"

lemma example_pending_eq:
  "example_pending =
     \<lparr>initialized = True, streaming = True, subscriptions = [(IdNumber 1, 1)],
      subs = [\<lparr>request_id = Some (IdNumber 0), sub_method = ''initialize'', acc = JObject [], index = 1, closed = True\<rparr>,
              \<lparr>request_id = Some (IdNumber 1), sub_method = ''hover'', acc = JNull, index = 0, closed = False\<rparr>],
      ticks = [],
      written = [PartialResult (IdNumber 0) (add_root (JObject [])), Result (IdNumber 0) (JObject [])],
      logger_calls = [], shutdowns = 0\<rparr>"
  by code_simp

lemma request_patch_rejected:
  assumes "h < length (subs st)" and "\<not> closed (subs st ! h)"
    and "request_id (subs st ! h) = Some i" and "streaming st"
    and "applyReducer E (acc (subs st ! h)) p (index (subs st ! h)) = Inl e"
  shows "written (feed E st h (Next p # evs)) =
           written st @ [PartialResult i p,
             ErrorResponse i (err_message e) (case err_code e of Some c \<Rightarrow> c | None \<Rightarrow> UnknownErrorCode)
               (err_data e)]"
proof -
  let ?st1 = "deliver E st h (Next p)"
  have w: "written ?st1 = written st @ [PartialResult i p,
             ErrorResponse i (err_message e) (case err_code e of Some c \<Rightarrow> c | None \<Rightarrow> UnknownErrorCode)
               (err_data e)]"
    and c: "closed (subs ?st1 ! h)" and l: "h < length (subs ?st1)"
    using assms by (simp_all add: deliver_def fail_def close_sub_def Let_def)
  show ?thesis
    by (simp add: feed_Cons feed_closed [OF l c] w)
qed


subsection \<open>C1: partial results in order, then the final response\<close>

text \<open>
  C1, as stated, for every request whose handler emits three patches and then completes: the
  three partial results are written, then one response with the folded result. The \<open>check\<close>
  method of the example emits three patches and completes; its first patch is a \<open>test\<close>
  that the document \<open>null\<close> does not pass, so the reducer throws on it. The dispatcher has
  written that patch as a partial result by then; it ends the request with an error response
  and writes neither the other two patches nor a result.
\<close>

theorem failing_patch_counterexample:
  "streaming example_session
   \<and> written (dispatch example_env example_session (RequestMessage (IdNumber 1) ''check'' None))
     = written example_session @
         [PartialResult (IdNumber 1) (test_root (JNumber 1)),
          ErrorResponse (IdNumber 1) (err_message test_failed) UnknownErrorCode (err_data test_failed)]"
  unfolding example_session_eq by code_simp

text \<open>
  C1, amended: for every request, of a method other than \<open>exit\<close> and \<open>$/cancelRequest\<close>
  (which run no handler), whose handler returns an observable that emits \<open>P1\<close>, \<open>P2\<close>, \<open>P3\<close>
  and then completes, part of it at once (\<open>now\<close>) and the rest afterwards (\<open>later\<close>), with
  streaming declared, and whose patches all apply (the left fold of the reducer over them
  from \<open>null\<close> is a document \<open>r\<close>): what the dispatcher writes for it is exactly the three
  partial results in that order and then one response with the result \<open>r\<close>.
\<close>

theorem partial_results_then_final:
  assumes stream: "streaming_declared st m params"
    and known_method: "m \<noteq> ''exit''" "m \<noteq> ''$/cancelRequest''"
    and found: "handler E (camelCase E m) = Some f"
    and returns: "f params = Inr (AnObservable now)"
    and emits: "now @ later = [Next P1, Next P2, Next P3, Complete]"
    and folds: "fold_patches (applyReducer E) JNull 0 [P1, P2, P3] = Inr r"
  shows "written (feed E (dispatch E st (RequestMessage i m params)) (length (subs st)) later)
         = written st @ [PartialResult i P1, PartialResult i P2, PartialResult i P3, Result i r]"
proof -
  let ?h = "length (subs st)"
  let ?new = "\<lparr>request_id = Some i, sub_method = m, acc = JNull, index = 0, closed = False\<rparr>"
  have run: "\<And>s. streaming s \<Longrightarrow>
      written (feed E (feed E (s\<lparr>subs := subs s @ [?new]\<rparr>) (length (subs s)) now) (length (subs s)) later)
      = written s @ [PartialResult i P1, PartialResult i P2, PartialResult i P3, Result i r]"
    using request_run [OF _ folds, of _ i m] emits
    by (simp add: feed_append [symmetric])
  have call: "written (feed E (invoke E s (Some i) m params) ?h later)
      = written st @ [PartialResult i P1, PartialResult i P2, PartialResult i P3, Result i r]"
    if len: "length (subs s) = ?h" and str: "streaming s" and w: "written s = written st" for s
  proof -
    have "written (feed E (invoke E s (Some i) m params) (length (subs s)) later)
      = written s @ [PartialResult i P1, PartialResult i P2, PartialResult i P3, Result i r]"
      using run [OF str] by (simp add: invoke_def found returns to_events_def Let_def feed_subscriptions)
    then show ?thesis by (simp add: len w)
  qed
  consider (init) "m = ''initialize''" | (down) "m = ''shutdown''"
    | (other) "m \<noteq> ''initialize''" "m \<noteq> ''shutdown''"
    by blast
  then show ?thesis
  proof cases
    case init
    with stream obtain caps v where
      caps: "property params ''capabilities'' = Inr caps"
      and v: "property caps ''streaming'' = Inr (Some v)" and t: "truthy v"
      by (auto simp: streaming_declared_def split: sum.splits option.splits)
    have "dispatch E st (RequestMessage i m params)
        = invoke E (st\<lparr>initialized := True, streaming := True\<rparr>) (Some i) m params"
      using init caps v t by (simp add: dispatch_def handle_call_def)
    then show ?thesis
      using call [of "st\<lparr>initialized := True, streaming := True\<rparr>"] by simp
  next
    case down
    then have "dispatch E st (RequestMessage i m params) = invoke E (st\<lparr>initialized := False\<rparr>) (Some i) m params"
      by (simp add: dispatch_def handle_call_def)
    moreover have "streaming st"
      using stream down by (simp add: streaming_declared_def)
    ultimately show ?thesis
      using call [of "st\<lparr>initialized := False\<rparr>"] by simp
  next
    case other
    then have "dispatch E st (RequestMessage i m params) = invoke E st (Some i) m params"
      using known_method by (simp add: dispatch_def handle_call_def)
    moreover have "streaming st"
      using stream other by (simp add: streaming_declared_def)
    ultimately show ?thesis
      using call [of st] by simp
  qed
qed


theorem partial_results_then_final_witness:
  "streaming_declared example_session ''build'' None
   \<and> fold_patches (applyReducer example_env) JNull 0
        [add_root (JNumber 1), add_root (JNumber 2), test_root (JNumber 2)] = Inr (JNumber 2)
   \<and> written (feed example_env
        (dispatch example_env example_session (RequestMessage (IdNumber 1) ''build'' None))
        (length (subs example_session)) [Next (test_root (JNumber 2)), Complete])
     = written example_session @
         [PartialResult (IdNumber 1) (add_root (JNumber 1)), PartialResult (IdNumber 1) (add_root (JNumber 2)),
          PartialResult (IdNumber 1) (test_root (JNumber 2)), Result (IdNumber 1) (JNumber 2)]"
proof -
  have stream: "streaming_declared example_session ''build'' None"
    by (simp add: streaming_declared_def example_session_eq)
  have found: "handler example_env (camelCase example_env ''build'')
      = Some (\<lambda>params. Inr (AnObservable [Next (add_root (JNumber 1)), Next (add_root (JNumber 2))]))"
    by (simp add: example_env_def)
  have folds: "fold_patches (applyReducer example_env) JNull 0
        [add_root (JNumber 1), add_root (JNumber 2), test_root (JNumber 2)] = Inr (JNumber 2)"
    by (simp add: example_env_def root_reducer_def add_root_def test_root_def)
  have emits: "[Next (add_root (JNumber 1)), Next (add_root (JNumber 2))] @ [Next (test_root (JNumber 2)), Complete]
      = [Next (add_root (JNumber 1)), Next (add_root (JNumber 2)), Next (test_root (JNumber 2)), Complete]"
    by simp
  have m1: "''build'' \<noteq> ''exit''" and m2: "''build'' \<noteq> ''$/cancelRequest''"
    by simp_all
  show ?thesis
    using partial_results_then_final [OF stream m1 m2 found refl emits folds, where i = "IdNumber 1"]
      stream folds
    by simp
qed


subsection \<open>C4: cancelling a request\<close>

lemma results_for_append: "results_for i (xs @ ys) = results_for i xs @ results_for i ys"
  by (simp add: results_for_def)

lemma results_for_other:
  "results_for i [] = []"
  "results_for i (ErrorResponse j m c d # ws) = results_for i ws"
  "results_for i (PartialResult j p # ws) = results_for i ws"
  "j \<noteq> i \<Longrightarrow> results_for i (Result j r # ws) = results_for i ws"
  by (simp_all add: results_for_def is_result_for_def)

lemma all_closed_update:
  "all_closed i ss \<Longrightarrow> (request_id x = Some i \<longrightarrow> closed x) \<Longrightarrow> all_closed i (ss[h := x])"
  unfolding all_closed_def list_all_iff
  using set_update_subset_insert [of ss h x] by auto

lemma all_closed_nth:
  "all_closed i ss \<Longrightarrow> h < length ss \<Longrightarrow> request_id (ss ! h) = Some i \<Longrightarrow> closed (ss ! h)"
  by (simp add: all_closed_def list_all_length)

lemma all_closed_snoc:
  "all_closed i (ss @ [x]) = (all_closed i ss \<and> (request_id x = Some i \<longrightarrow> closed x))"
  by (simp add: all_closed_def)

lemma quiet_refl: "all_closed i (subs st) \<Longrightarrow> quiet i st st"
  by (simp add: quiet_def)

lemma quiet_trans: "quiet i st st' \<Longrightarrow> quiet i st' st'' \<Longrightarrow> quiet i st st''"
  by (simp add: quiet_def)

lemma close_sub_quiet: "all_closed i (subs st) \<Longrightarrow> quiet i st (close_sub st h)"
  by (simp add: quiet_def close_sub_def all_closed_update)

lemma fail_quiet: "all_closed i (subs st) \<Longrightarrow> quiet i st (fail st h e)"
  by (simp add: quiet_def fail_def close_sub_def all_closed_update results_for_append results_for_other
      split: option.splits)

lemma deliver_quiet:
  assumes "all_closed i (subs st)"
  shows "quiet i st (deliver E st h ev)"
proof (cases "h < length (subs st) \<and> \<not> closed (subs st ! h)")
  case False
  then have "deliver E st h ev = st" by (auto simp: deliver_def)
  then show ?thesis using assms by (simp add: quiet_def)
next
  case True
  then have other: "request_id (subs st ! h) \<noteq> Some i"
    using all_closed_nth [OF assms] by blast
  show ?thesis
    using True other assms
    by (auto simp: quiet_def deliver_def fail_def close_sub_def Let_def all_closed_update
        results_for_append results_for_other split: option.splits event.splits sum.splits)
qed

lemma feed_quiet: "all_closed i (subs st) \<Longrightarrow> quiet i st (feed E st h evs)"
proof (induction evs arbitrary: st)
  case Nil
  then show ?case by (simp add: feed_Nil quiet_refl)
next
  case (Cons ev evs)
  have one: "quiet i st (deliver E st h ev)" by (rule deliver_quiet [OF Cons.prems])
  then have "all_closed i (subs (deliver E st h ev))" by (simp add: quiet_def)
  then have "quiet i (deliver E st h ev) (feed E (deliver E st h ev) h evs)" by (rule Cons.IH)
  with one show ?case by (simp add: feed_Cons quiet_trans)
qed

lemma unsubscribe_quiet: "all_closed i (subs st) \<Longrightarrow> quiet i st (unsubscribe st h)"
  by (simp add: unsubscribe_def close_sub_quiet quiet_refl)

lemma unsubscribe_list_quiet: "all_closed i (subs st) \<Longrightarrow> quiet i st (foldl unsubscribe st hs)"
proof (induction hs arbitrary: st)
  case Nil
  then show ?case by (simp add: quiet_refl)
next
  case (Cons h hs)
  have one: "quiet i st (unsubscribe st h)" by (rule unsubscribe_quiet [OF Cons.prems])
  then have "all_closed i (subs (unsubscribe st h))" by (simp add: quiet_def)
  then have "quiet i (unsubscribe st h) (foldl unsubscribe (unsubscribe st h) hs)" by (rule Cons.IH)
  with one show ?case by (simp add: quiet_trans)
qed

lemma unsubscribe_all_quiet: "all_closed i (subs st) \<Longrightarrow> quiet i st (unsubscribe_all st)"
  by (simp add: unsubscribe_all_def unsubscribe_list_quiet)

lemma run_ticks_quiet: "all_closed i (subs st) \<Longrightarrow> quiet i st (run_ticks st)"
  by (simp add: run_ticks_def quiet_def)

lemma cancelRequest_quiet:
  assumes "all_closed i (subs st)"
  shows "quiet i st (cancelRequest E st params)"
proof -
  have "quiet i st ((unsubscribe st h)\<lparr>subscriptions := m,
          written := written (unsubscribe st h) @ [ErrorResponse j ''Request cancelled'' RequestCancelled []]\<rparr>)"
    for h m j
    using unsubscribe_quiet [OF assms, of h]
    by (simp add: quiet_def results_for_append results_for_other)
  then show ?thesis
    using assms
    by (simp add: cancelRequest_def Let_def quiet_def split: sum.splits option.splits prod.splits)
qed

lemma invoke_quiet:
  assumes "all_closed i (subs st)" and "ident \<noteq> Some i"
  shows "quiet i st (invoke E st ident m params)"
proof (cases "handler E (camelCase E m)")
  case None
  then show ?thesis
    using assms by (simp add: invoke_def Let_def quiet_def results_for_append results_for_other split: option.splits)
next
  case (Some f)
  let ?new = "\<lparr>request_id = ident, sub_method = (case ident of None \<Rightarrow> camelCase E m | Some i \<Rightarrow> m),
                 acc = JNull, index = 0, closed = False\<rparr>"
  let ?st1 = "st\<lparr>subs := subs st @ [?new]\<rparr>"
  have "all_closed i (subs ?st1)"
    using assms by (simp add: all_closed_snoc)
  then have "quiet i ?st1 (feed E ?st1 (length (subs st)) (to_events (f params)))"
    by (rule feed_quiet)
  then show ?thesis
    by (simp add: invoke_def Some Let_def quiet_def split: option.splits)
qed

lemma handle_call_quiet:
  assumes "all_closed i (subs st)" and "ident \<noteq> Some i"
  shows "quiet i st (handle_call E st ident m params)"
proof -
  have change: "quiet i st (invoke E (st\<lparr>initialized := a, streaming := b\<rparr>) ident n params)" for a b n
    using invoke_quiet [of i "st\<lparr>initialized := a, streaming := b\<rparr>" ident E n params] assms
    by (simp add: quiet_def)
  have change1: "quiet i st (invoke E (st\<lparr>initialized := a\<rparr>) ident n params)" for a n
    using invoke_quiet [of i "st\<lparr>initialized := a\<rparr>" ident E n params] assms
    by (simp add: quiet_def)
  have same: "quiet i st (st\<lparr>initialized := True\<rparr>)"
    using assms by (simp add: quiet_def)
  show ?thesis
    using change change1 same invoke_quiet [OF assms] unsubscribe_all_quiet [OF assms(1)]
      cancelRequest_quiet [OF assms(1)]
    by (simp add: handle_call_def split: sum.splits)
qed

lemma stream_ended_quiet: "all_closed i (subs st) \<Longrightarrow> quiet i st (stream_ended what st)"
  using unsubscribe_all_quiet [of i st]
  by (simp add: stream_ended_def Let_def quiet_def)

lemma apply_step_quiet:
  assumes "all_closed i (subs st)" and "\<not> new_request i s"
  shows "quiet i st (apply_step E st s)"
proof (cases s)
  case (Received msg)
  then show ?thesis
    using assms handle_call_quiet [OF assms(1), of None] handle_call_quiet [OF assms(1), of "Some j" for j]
    by (cases msg) (auto simp: dispatch_def new_request_def quiet_def results_for_append)
qed (simp_all add: deliver_quiet run_ticks_quiet stream_close_def stream_error_def stream_ended_quiet assms(1))

lemma run_steps_quiet:
  "all_closed i (subs st) \<Longrightarrow> \<not> list_ex (new_request i) steps \<Longrightarrow> quiet i st (run_steps E st steps)"
  unfolding run_steps_def
proof (induction steps arbitrary: st)
  case Nil
  then show ?case by (simp add: quiet_refl)
next
  case (Cons s steps)
  have one: "quiet i st (apply_step E st s)"
    using Cons.prems by (intro apply_step_quiet) simp_all
  then have "all_closed i (subs (apply_step E st s))" by (simp add: quiet_def)
  then have "quiet i (apply_step E st s) (foldl (apply_step E) (apply_step E st s) steps)"
    using Cons.prems by (intro Cons.IH) simp_all
  with one show ?case by (simp add: quiet_trans)
qed


lemma cancelRequest_subs:
  assumes "pending_entry st v = Some (i, h)" and "property params ''id'' = Inr v"
    and "h < length (subs st)" and "\<not> closed (subs st ! h)"
  shows "subs (cancelRequest E st params) = (subs st)[h := (subs st ! h)\<lparr>closed := True\<rparr>]"
  using assms by (simp add: cancelRequest_def Let_def unsubscribe_def close_sub_def)

text \<open>
  C4, as stated, for every \<open>$/cancelRequest\<close> message: an unknown id gets a warning and no
  response, and after the cancellation of a live entry no success response is ever written for
  that id. A \<open>$/cancelRequest\<close> without \<open>params\<close> has no id to look up: reading
  \<open>message.params.id\<close> throws, the listener ends, and neither a warning is logged nor a
  response written. And the table holds one entry for an id: when a second request has used
  the id \<open>1\<close> of a request that is still pending, the entry is that of the second, whose
  subscription is live. The cancellation unsubscribes the second and writes the error; the
  first computation is still subscribed, and when it completes, its partial result and its
  success response for the id \<open>1\<close> are written after the cancellation error. Last, a
  request that arrives after the cancellation and uses the id \<open>1\<close> again is answered with a
  success response for that id.
\<close>

theorem cancel_reused_id_counterexample:
  "dispatch example_env example_pending (NotificationMessage ''$/cancelRequest'' None) = example_pending
   \<and> pending_entry (dispatch example_env example_pending (RequestMessage (IdNumber 1) ''hover'' None))
        (Some (JNumber 1)) = Some (IdNumber 1, 2)
   \<and> \<not> closed (subs (dispatch example_env example_pending (RequestMessage (IdNumber 1) ''hover'' None)) ! 2)
   \<and> written (feed example_env
        (dispatch example_env
           (dispatch example_env example_pending (RequestMessage (IdNumber 1) ''hover'' None))
           (NotificationMessage ''$/cancelRequest'' (Some (JObject [(''id'', JNumber 1)]))))
        1 [Next (add_root (JNumber 5)), Complete])
     = written example_pending @
         [ErrorResponse (IdNumber 1) ''Request cancelled'' RequestCancelled [],
          PartialResult (IdNumber 1) (add_root (JNumber 5)),
          Result (IdNumber 1) (JNumber 5)]
   \<and> written (feed example_env
        (dispatch example_env
           (dispatch example_env example_pending
              (NotificationMessage ''$/cancelRequest'' (Some (JObject [(''id'', JNumber 1)]))))
           (RequestMessage (IdNumber 1) ''build'' None))
        2 [Complete])
     = written example_pending @
         [ErrorResponse (IdNumber 1) ''Request cancelled'' RequestCancelled [],
          PartialResult (IdNumber 1) (add_root (JNumber 1)),
          PartialResult (IdNumber 1) (add_root (JNumber 2)),
          Result (IdNumber 1) (JNumber 2)]"
  unfolding example_pending_eq by code_simp

text \<open>
  C4, amended: for every \<open>$/cancelRequest\<close> message, request or notification, whose \<open>params\<close>
  can be asked for an \<open>id\<close> (they are neither absent nor \<open>null\<close>). When the pending request
  table has no entry for that id, the dispatcher logs a warning that names the id and nothing
  else changes: nothing is written. When the table has an entry for it and the subscription
  of the entry is live (it has not ended), the subscription is closed, the entry is removed,
  exactly one response is written, the error with the code \<open>RequestCancelled\<close>, and
  whatever the cancelled computation sends afterwards (\<open>evs\<close>), nothing more is written for
  it. When moreover no other live subscription was made for the same id, then whatever
  happens afterwards (\<open>steps\<close>: events of any subscription, queued callbacks, further
  messages, the end of the stream), as long as no new request with that id arrives, no
  success response for that id is written.
\<close>

theorem cancel_request:
  assumes shape: "msg = NotificationMessage ''$/cancelRequest'' params
                \<or> msg = RequestMessage j ''$/cancelRequest'' params"
    and key: "property params ''id'' = Inr v"
  shows "(pending_entry st v = None \<longrightarrow>
            dispatch E st msg =
              st\<lparr>logger_calls := logger_calls st @
                   [Warn (''$/cancelRequest for unknown request ID '' @ templateText E v)]\<rparr>)
       \<and> (pending_entry st v = Some (i, h) \<and> h < length (subs st) \<and> \<not> closed (subs st ! h) \<longrightarrow>
            closed (subs (dispatch E st msg) ! h)
          \<and> map_of (subscriptions (dispatch E st msg)) i = None
          \<and> written (dispatch E st msg) = written st @ [ErrorResponse i ''Request cancelled'' RequestCancelled []]
          \<and> written (feed E (dispatch E st msg) h evs) = written (dispatch E st msg)
          \<and> (others_closed i h (subs st) \<and> \<not> list_ex (new_request i) steps \<longrightarrow>
               results_for i (written (run_steps E (dispatch E st msg) steps)) = results_for i (written st)))"
proof -
  have d: "dispatch E st msg = cancelRequest E st params"
    using shape by (auto simp: dispatch_def handle_call_def)
  have unknown: "pending_entry st v = None \<Longrightarrow>
      cancelRequest E st params =
        st\<lparr>logger_calls := logger_calls st @
             [Warn (''$/cancelRequest for unknown request ID '' @ templateText E v)]\<rparr>"
    by (simp add: cancelRequest_def key)
  have live: "cancelRequest E st params =
        (unsubscribe st h)\<lparr>subscriptions := AList.delete i (subscriptions (unsubscribe st h)),
           written := written (unsubscribe st h) @ [ErrorResponse i ''Request cancelled'' RequestCancelled []]\<rparr>"
    if "pending_entry st v = Some (i, h)"
    using that by (simp add: cancelRequest_def key Let_def)
  have after: "closed (subs (cancelRequest E st params) ! h)
          \<and> map_of (subscriptions (cancelRequest E st params)) i = None
          \<and> written (cancelRequest E st params) = written st @ [ErrorResponse i ''Request cancelled'' RequestCancelled []]
          \<and> written (feed E (cancelRequest E st params) h evs) = written (cancelRequest E st params)"
    if entry: "pending_entry st v = Some (i, h)" and valid: "h < length (subs st)"
  proof -
    let ?st' = "cancelRequest E st params"
    have c: "closed (subs ?st' ! h)"
      using unsubscribe_closed [OF valid] by (simp add: live [OF entry])
    have len: "h < length (subs ?st')"
      using valid unsubscribe_frame [of st h] by (simp add: live [OF entry])
    have quiet: "feed E ?st' h evs = ?st'"
      by (rule feed_closed [OF len c])
    show ?thesis
      using c unsubscribe_frame [of st h] by (simp add: quiet) (simp add: live [OF entry] delete_conv')
  qed
  have never: "results_for i (written (run_steps E (cancelRequest E st params) steps)) = results_for i (written st)"
    if entry: "pending_entry st v = Some (i, h)" and valid: "h < length (subs st)"
      and running: "\<not> closed (subs st ! h)"
      and others: "others_closed i h (subs st)" and old: "\<not> list_ex (new_request i) steps"
  proof -
    let ?st' = "cancelRequest E st params"
    have "all_closed i (subs ?st')"
      using others by (simp add: cancelRequest_subs [OF entry key valid running] others_closed_def)
    then have "quiet i ?st' (run_steps E ?st' steps)"
      using old by (rule run_steps_quiet)
    moreover have "results_for i (written ?st') = results_for i (written st)"
      using unsubscribe_frame [of st h]
      by (simp add: live [OF entry] results_for_append results_for_other)
    ultimately show ?thesis
      by (simp add: quiet_def)
  qed
  show ?thesis
    using unknown after never by (simp add: d)
qed

theorem cancel_request_witness:
  "dispatch example_env example_pending
     (NotificationMessage ''$/cancelRequest'' (Some (JObject [(''id'', JNumber 7)])))
   = example_pending\<lparr>logger_calls := [Warn ''$/cancelRequest for unknown request ID 7'']\<rparr>
   \<and> pending_entry example_pending (Some (JNumber 1)) = Some (IdNumber 1, 1)
   \<and> \<not> closed (subs example_pending ! 1)
   \<and> written (feed example_env
        (dispatch example_env example_pending
           (NotificationMessage ''$/cancelRequest'' (Some (JObject [(''id'', JNumber 1)]))))
        1 [Next (add_root JNull), Complete])
     = written example_pending @ [ErrorResponse (IdNumber 1) ''Request cancelled'' RequestCancelled []]
   \<and> others_closed (IdNumber 1) 1 (subs example_pending)
   \<and> \<not> list_ex (new_request (IdNumber 1))
        [Delivered 1 (Next (add_root JNull)), Delivered 1 Complete, Ticked,
         Received (RequestMessage (IdNumber 2) ''build'' None), Delivered 2 Complete, StreamClosed]
   \<and> results_for (IdNumber 1) (written (run_steps example_env
        (dispatch example_env example_pending
           (NotificationMessage ''$/cancelRequest'' (Some (JObject [(''id'', JNumber 1)]))))
        [Delivered 1 (Next (add_root JNull)), Delivered 1 Complete, Ticked,
         Received (RequestMessage (IdNumber 2) ''build'' None), Delivered 2 Complete, StreamClosed])) = []"
proof -
  have key7: "property (Some (JObject [(''id'', JNumber 7)])) ''id'' = Inr (Some (JNumber 7))"
    and key1: "property (Some (JObject [(''id'', JNumber 1)])) ''id'' = Inr (Some (JNumber 1))"
    by (simp_all add: property_def)
  have shape7: "NotificationMessage ''$/cancelRequest'' (Some (JObject [(''id'', JNumber 7)]))
        = NotificationMessage ''$/cancelRequest'' (Some (JObject [(''id'', JNumber 7)]))
      \<or> NotificationMessage ''$/cancelRequest'' (Some (JObject [(''id'', JNumber 7)]))
        = RequestMessage (IdNumber 0) ''$/cancelRequest'' (Some (JObject [(''id'', JNumber 7)]))"
    and shape1: "NotificationMessage ''$/cancelRequest'' (Some (JObject [(''id'', JNumber 1)]))
        = NotificationMessage ''$/cancelRequest'' (Some (JObject [(''id'', JNumber 1)]))
      \<or> NotificationMessage ''$/cancelRequest'' (Some (JObject [(''id'', JNumber 1)]))
        = RequestMessage (IdNumber 0) ''$/cancelRequest'' (Some (JObject [(''id'', JNumber 1)]))"
    by simp_all
  have unknown: "pending_entry example_pending (Some (JNumber 7)) = None"
    by (simp add: pending_entry_def requested_id_def example_pending_eq)
  have text7: "templateText example_env (Some (JNumber 7)) = ''7''"
    by code_simp
  have live: "pending_entry example_pending (Some (JNumber 1)) = Some (IdNumber 1, 1)"
    and valid: "1 < length (subs example_pending)"
    and "open": "\<not> closed (subs example_pending ! 1)"
    by (simp_all add: pending_entry_def requested_id_def example_pending_eq)
  have others: "others_closed (IdNumber 1) 1 (subs example_pending)"
    by (simp add: others_closed_def all_closed_def example_pending_eq)
  have old: "\<not> list_ex (new_request (IdNumber 1))
        [Delivered 1 (Next (add_root JNull)), Delivered 1 Complete, Ticked,
         Received (RequestMessage (IdNumber 2) ''build'' None), Delivered 2 Complete, StreamClosed]"
    by (simp add: new_request_def)
  have logged: "logger_calls example_pending = []"
    and none: "results_for (IdNumber 1) (written example_pending) = []"
    by (simp_all add: example_pending_eq results_for_def is_result_for_def)
  show ?thesis
    using cancel_request [OF shape7 key7, where E = example_env and st = example_pending]
      cancel_request [OF shape1 key1, where E = example_env and st = example_pending
        and i = "IdNumber 1" and h = 1 and evs = "[Next (add_root JNull), Complete]"
        and steps = "[Delivered 1 (Next (add_root JNull)), Delivered 1 Complete, Ticked,
         Received (RequestMessage (IdNumber 2) ''build'' None), Delivered 2 Complete, StreamClosed]"]
      unknown live valid "open" others old
    by (simp add: logged none text7)
qed


text \<open>
  A request that completes while it is being subscribed keeps its entry in the table until the
  queued removal runs. A \<open>$/cancelRequest\<close> handled before that finds the entry of a
  subscription that has ended, and is answered with the cancellation error after the
  result: here the \<open>initialize\<close> request \<open>0\<close> of the example and its cancellation,
  with no \<open>run_ticks\<close> between them.
\<close>

lemma cancel_before_queued_removal:
  "written (dispatch example_env
      (dispatch example_env new_dispatcher
         (RequestMessage (IdNumber 0) ''initialize''
            (Some (JObject [(''capabilities'', JObject [(''streaming'', JBool True)])]))))
      (NotificationMessage ''$/cancelRequest'' (Some (JObject [(''id'', JNumber 0)]))))
   = [PartialResult (IdNumber 0) (add_root (JObject [])), Result (IdNumber 0) (JObject []),
      ErrorResponse (IdNumber 0) ''Request cancelled'' RequestCancelled []]"
  by code_simp

end
